theory Spec2Isabelle
  imports Main
begin

section \<open>Data model of the article store (src/mongodb_manager.py)\<close>

text \<open>
  The manager keeps four MongoDB collections. A collection is modelled as the list of
  its documents in insertion order. Timestamps (\<open>datetime.now().isoformat()\<close>) are read
  from a clock that is part of the state and advances with every reading; object ids
  are drawn from a counter. Methods whose Python name starts with an underscore keep
  their name without it.
\<close>

type_synonym timestamp = nat
type_synonym object_id = nat

text \<open>An article dictionary: the three keys the manager reads, and the rest of it.\<close>

record article =
  url :: "string option"
  website_name :: "string option"
  scraped_at :: "timestamp option"
  content :: string

record seen_entry =
  seen_url :: string
  first_seen :: timestamp
  last_seen :: timestamp
  seen_source :: "string option"
  seen_count :: int

text \<open>
  The statistics document. \<open>$inc\<close> creates a field that is absent, so every counter
  may be missing; \<open>sources.<name>\<close> is a sub-document with the same convention, and
  \<open>sources\<close> is the list of its fields in the order they were created.
\<close>

record source_stats =
  src_articles :: "int option"
  src_duplicates :: "int option"

record stats_doc =
  total_articles :: "int option"
  total_duplicates :: "int option"
  total_scraper_runs :: "int option"
  last_updated :: "timestamp option"
  sources :: "(string \<times> source_stats) list"

record scraper_run =
  run_id :: object_id
  started_at :: timestamp
  run_status :: string
  run_source :: "string option"
  articles_scraped :: int
  duplicates_found :: int
  run_errors :: int
  ended_at :: "timestamp option"

text \<open>
  The state: the four collections, the clock, the object id counter, what the server
  answers to \<open>dbStats\<close>, the configured connection string, and the schedule of storage
  failures: every call to the database consumes the head of \<open>faults\<close>, and raises an
  exception with the given message when the head is \<open>Some\<close> message. An empty schedule
  is a database that answers every call.
\<close>

record db =
  articles_collection :: "(object_id \<times> article) list"
  seen_urls_collection :: "seen_entry list"
  stats_collection :: "stats_doc list"
  scraper_runs_collection :: "scraper_run list"
  clock :: timestamp
  next_oid :: object_id
  data_size :: "nat option"
  connection_string :: string
  faults :: "string option list"

text \<open>
  Exceptions: pymongo's \<open>DuplicateKeyError\<close>, raised by an insert that violates a
  unique index, and any other exception, with its message.
\<close>

datatype exn = DuplicateKeyError | OtherError string

text \<open>The dictionaries \<open>add_article\<close> returns, one constructor per \<open>status\<close>.\<close>

datatype result =
  Success string nat object_id
  | Duplicate string
  | Error string

fun status :: "result \<Rightarrow> string" where
  "status (Success u n i) = ''success''"
| "status (Duplicate u) = ''duplicate''"
| "status (Error r) = ''error''"

section \<open>The database calls\<close>

definition now :: "db \<Rightarrow> timestamp \<times> db" where
  "now s = (clock s, s\<lparr>clock := Suc (clock s)\<rparr>)"

definition db_call :: "db \<Rightarrow> string option \<times> db" where
  "db_call s = (case faults s of [] \<Rightarrow> (None, s) | f # fs \<Rightarrow> (f, s\<lparr>faults := fs\<rparr>))"

text \<open>Python truthiness of an optional string: \<open>None\<close> and \<open>''\<close> are falsy.\<close>

fun truthy :: "string option \<Rightarrow> bool" where
  "truthy None = False"
| "truthy (Some u) = (u \<noteq> [])"

text \<open>\<open>seen_urls_collection.count_documents({'url': url}, limit=1)\<close>\<close>

definition seen_count_documents :: "db \<Rightarrow> string \<Rightarrow> (exn + nat) \<times> db" where
  "seen_count_documents s u =
     (case db_call s of
        (Some m, s') \<Rightarrow> (Inl (OtherError m), s')
      | (None, s') \<Rightarrow>
          (Inr (min 1 (length (filter (\<lambda>e. seen_url e = u) (seen_urls_collection s')))), s'))"

text \<open>\<open>articles_collection.count_documents({})\<close>\<close>

definition articles_count_documents :: "db \<Rightarrow> (exn + nat) \<times> db" where
  "articles_count_documents s =
     (case db_call s of
        (Some m, s') \<Rightarrow> (Inl (OtherError m), s')
      | (None, s') \<Rightarrow> (Inr (length (articles_collection s')), s'))"

text \<open>
  \<open>articles_collection.insert_one(article)\<close> under the unique index on \<open>url\<close> that
  \<open>_create_indexes\<close> declares: a document whose \<open>url\<close> is already stored is refused
  with \<open>DuplicateKeyError\<close> and nothing is written.
\<close>

definition articles_insert_one :: "db \<Rightarrow> article \<Rightarrow> (exn + object_id) \<times> db" where
  "articles_insert_one s a =
     (case db_call s of
        (Some m, s') \<Rightarrow> (Inl (OtherError m), s')
      | (None, s') \<Rightarrow>
          (if url a \<in> set (map (\<lambda>d. url (snd d)) (articles_collection s'))
           then (Inl DuplicateKeyError, s')
           else (Inr (next_oid s'),
                 s'\<lparr>articles_collection := articles_collection s' @ [(next_oid s', a)],
                    next_oid := Suc (next_oid s')\<rparr>)))"

text \<open>\<open>seen_urls_collection.insert_one(seen_entry)\<close>, unique index on \<open>url\<close>.\<close>

definition seen_insert_one :: "db \<Rightarrow> seen_entry \<Rightarrow> (exn + unit) \<times> db" where
  "seen_insert_one s e =
     (case db_call s of
        (Some m, s') \<Rightarrow> (Inl (OtherError m), s')
      | (None, s') \<Rightarrow>
          (if seen_url e \<in> set (map seen_url (seen_urls_collection s'))
           then (Inl DuplicateKeyError, s')
           else (Inr (), s'\<lparr>seen_urls_collection := seen_urls_collection s' @ [e]\<rparr>)))"

text \<open>\<open>update_one\<close> changes the first document that matches the filter, if any.\<close>

fun update_first :: "('a \<Rightarrow> bool) \<Rightarrow> ('a \<Rightarrow> 'a) \<Rightarrow> 'a list \<Rightarrow> 'a list" where
  "update_first p f [] = []"
| "update_first p f (x # xs) = (if p x then f x # xs else x # update_first p f xs)"

text \<open>
  \<open>seen_urls_collection.update_one({'url': url},
     {'$set': {'last_seen': t}, '$inc': {'seen_count': 1}})\<close>
\<close>

definition seen_update_one :: "db \<Rightarrow> string \<Rightarrow> timestamp \<Rightarrow> (exn + unit) \<times> db" where
  "seen_update_one s u t =
     (case db_call s of
        (Some m, s') \<Rightarrow> (Inl (OtherError m), s')
      | (None, s') \<Rightarrow>
          (Inr (), s'\<lparr>seen_urls_collection :=
                  update_first (\<lambda>e. seen_url e = u)
                    (\<lambda>e. e\<lparr>last_seen := t, seen_count := seen_count e + 1\<rparr>)
                    (seen_urls_collection s')\<rparr>))"

text \<open>\<open>$inc\<close> on a counter that may be absent.\<close>

fun inc_field :: "int option \<Rightarrow> int \<Rightarrow> int option" where
  "inc_field None n = Some n"
| "inc_field (Some v) n = Some (v + n)"

definition empty_source_stats :: source_stats where
  "empty_source_stats = \<lparr>src_articles = None, src_duplicates = None\<rparr>"

definition empty_stats_doc :: stats_doc where
  "empty_stats_doc = \<lparr>total_articles = None, total_duplicates = None,
     total_scraper_runs = None, last_updated = None, sources = []\<rparr>"

text \<open>Setting a field of a sub-document: the field keeps its place, a new one is last.\<close>

fun set_field :: "'k \<Rightarrow> 'v \<Rightarrow> ('k \<times> 'v) list \<Rightarrow> ('k \<times> 'v) list" where
  "set_field k v [] = [(k, v)]"
| "set_field k v ((a, b) # xs) = (if a = k then (k, v) # xs else (a, b) # set_field k v xs)"

definition source_of :: "stats_doc \<Rightarrow> string \<Rightarrow> source_stats" where
  "source_of d n = (case map_of (sources d) n of None \<Rightarrow> empty_source_stats | Some x \<Rightarrow> x)"

text \<open>
  The update document \<open>_update_stats\<close> builds, applied to one statistics document:
  the \<open>$inc\<close> entries in the order the source adds them, then \<open>$set last_updated\<close>.
\<close>

definition apply_stats_update ::
  "int \<Rightarrow> int \<Rightarrow> string option \<Rightarrow> timestamp \<Rightarrow> stats_doc \<Rightarrow> stats_doc" where
  "apply_stats_update added duplicates source t d =
     (let d1 = (if added > 0
                then d\<lparr>total_articles := inc_field (total_articles d) added\<rparr> else d);
          d2 = (if duplicates > 0
                then d1\<lparr>total_duplicates := inc_field (total_duplicates d1) duplicates\<rparr>
                else d1);
          d3 = (if truthy source \<and> added > 0
                then d2\<lparr>sources := set_field (the source)
                        ((source_of d2 (the source))\<lparr>src_articles :=
                           inc_field (src_articles (source_of d2 (the source))) added\<rparr>)
                        (sources d2)\<rparr>
                else d2);
          d4 = (if truthy source \<and> duplicates > 0
                then d3\<lparr>sources := set_field (the source)
                        ((source_of d3 (the source))\<lparr>src_duplicates :=
                           inc_field (src_duplicates (source_of d3 (the source))) duplicates\<rparr>)
                        (sources d3)\<rparr>
                else d3)
      in d4\<lparr>last_updated := Some t\<rparr>)"

text \<open>
  \<open>stats_collection.update_one({}, update_dict, upsert=True)\<close>: the first document is
  updated; when the collection is empty a new document is made from the update.
\<close>

definition stats_update_one :: "db \<Rightarrow> (stats_doc \<Rightarrow> stats_doc) \<Rightarrow> (exn + unit) \<times> db" where
  "stats_update_one s f =
     (case db_call s of
        (Some m, s') \<Rightarrow> (Inl (OtherError m), s')
      | (None, s') \<Rightarrow>
          (Inr (), s'\<lparr>stats_collection :=
                  (case stats_collection s' of
                     [] \<Rightarrow> [f empty_stats_doc]
                   | d # ds \<Rightarrow> f d # ds)\<rparr>))"

section \<open>The manager's write path\<close>

text \<open>\<open>_update_stats\<close>: every exception is logged and swallowed.\<close>

definition update_stats :: "db \<Rightarrow> int \<Rightarrow> int \<Rightarrow> string option \<Rightarrow> db" where
  "update_stats s added duplicates source =
     (case now s of (t, s1) \<Rightarrow>
        snd (stats_update_one s1 (apply_stats_update added duplicates source t)))"

text \<open>
  \<open>_add_to_seen_urls\<close>: \<open>DuplicateKeyError\<close> is passed over, any other exception is
  logged; either way the method returns normally.
\<close>

definition add_to_seen_urls :: "db \<Rightarrow> string \<Rightarrow> string option \<Rightarrow> db" where
  "add_to_seen_urls s u source =
     (case now s of (t1, s1) \<Rightarrow>
        (case now s1 of (t2, s2) \<Rightarrow>
           snd (seen_insert_one s2
                  \<lparr>seen_url = u, first_seen = t1, last_seen = t2,
                   seen_source = source, seen_count = 1\<rparr>)))"

text \<open>
  \<open>_track_duplicate\<close>: the ledger entry is touched, then \<open>_update_stats(duplicates=1)\<close>
  is called; the \<open>source\<close> argument is not passed on. An exception from the ledger
  update skips the statistics update.
\<close>

definition track_duplicate :: "db \<Rightarrow> string \<Rightarrow> string option \<Rightarrow> db" where
  "track_duplicate s u source =
     (case now s of (t, s1) \<Rightarrow>
        (case seen_update_one s1 u t of
           (Inl e, s2) \<Rightarrow> s2
         | (Inr _, s2) \<Rightarrow> update_stats s2 0 1 None))"

text \<open>
  The body of the \<open>try\<close> block of \<open>add_article\<close>, for a truthy \<open>url\<close>. It returns the
  exception it raises, or the dictionary it returns.
\<close>

definition add_article_try :: "db \<Rightarrow> article \<Rightarrow> string \<Rightarrow> (exn + result) \<times> db" where
  "add_article_try s a u =
     (case seen_count_documents s u of
        (Inl e, s1) \<Rightarrow> (Inl e, s1)
      | (Inr n, s1) \<Rightarrow>
          if n > 0 then (Inr (Duplicate u), track_duplicate s1 u (website_name a))
          else
            (case (if scraped_at a = None
                   then (case now s1 of (t, s2) \<Rightarrow> (a\<lparr>scraped_at := Some t\<rparr>, s2))
                   else (a, s1)) of
               (a', s2) \<Rightarrow>
                 (case articles_insert_one s2 a' of
                    (Inl e, s3) \<Rightarrow> (Inl e, s3)
                  | (Inr oid, s3) \<Rightarrow>
                      (let s4 = add_to_seen_urls s3 u (website_name a');
                           s5 = update_stats s4 1 0 (website_name a')
                       in (case articles_count_documents s5 of
                             (Inl e, s6) \<Rightarrow> (Inl e, s6)
                           | (Inr n_total, s6) \<Rightarrow> (Inr (Success u n_total oid), s6))))))"

text \<open>
  \<open>add_article\<close>. The result is \<open>Inl\<close> for an exception that leaves the method and
  \<open>Inr\<close> for a returned dictionary. The argument \<open>save_immediately\<close> is not read by the
  source and is left out.
\<close>

definition add_article :: "db \<Rightarrow> article \<Rightarrow> (exn + result) \<times> db" where
  "add_article s a =
     (if \<not> truthy (url a) then (Inr (Error ''missing_url''), s)
      else
        (case add_article_try s a (the (url a)) of
           (Inr r, s') \<Rightarrow> (Inr r, s')
         | (Inl DuplicateKeyError, s') \<Rightarrow>
             (Inr (Duplicate (the (url a))),
              track_duplicate s' (the (url a)) (website_name a))
         | (Inl (OtherError m), s') \<Rightarrow> (Inr (Error m), s')))"

text \<open>The summary dictionary of \<open>add_articles_batch\<close>.\<close>

record summary =
  total_count :: nat
  added :: nat
  duplicates :: nat
  errors :: nat
  duplicate_urls :: "string list"

text \<open>
  One turn of the loop of \<open>add_articles_batch\<close>: an exception leaving \<open>add_article\<close>
  would leave the loop and the method.
\<close>

fun batch_loop :: "db \<Rightarrow> summary \<Rightarrow> article list \<Rightarrow> (exn + summary) \<times> db" where
  "batch_loop s results [] = (Inr results, s)"
| "batch_loop s results (a # as) =
     (case add_article s a of
        (Inl e, s') \<Rightarrow> (Inl e, s')
      | (Inr r, s') \<Rightarrow>
          batch_loop s'
            (if status r = ''success'' then results\<lparr>added := added results + 1\<rparr>
             else if status r = ''duplicate''
             then results\<lparr>duplicates := duplicates results + 1,
                          duplicate_urls := duplicate_urls results @
                            [case r of Duplicate u \<Rightarrow> u | Success u n i \<Rightarrow> u | Error m \<Rightarrow> []]\<rparr>
             else results\<lparr>errors := errors results + 1\<rparr>)
            as)"

definition add_articles_batch :: "db \<Rightarrow> article list \<Rightarrow> (exn + summary) \<times> db" where
  "add_articles_batch s articles =
     batch_loop s \<lparr>total_count = length articles, added = 0, duplicates = 0, errors = 0,
                   duplicate_urls = []\<rparr> articles"

section \<open>Initialisation, runs and statistics\<close>

text \<open>
  \<open>_initialize_stats\<close>: the statistics document is inserted when the collection is
  empty. The method has no \<open>try\<close>: an exception of a database call leaves it.
\<close>

definition initial_stats :: "timestamp \<Rightarrow> stats_doc" where
  "initial_stats t = \<lparr>total_articles = Some 0, total_duplicates = Some 0,
     total_scraper_runs = Some 0, last_updated = Some t, sources = []\<rparr>"

definition initialize_stats :: "db \<Rightarrow> (exn + unit) \<times> db" where
  "initialize_stats s =
     (case db_call s of
        (Some m, s1) \<Rightarrow> (Inl (OtherError m), s1)
      | (None, s1) \<Rightarrow>
          if length (stats_collection s1) = 0 then
            (case now s1 of (t, s2) \<Rightarrow>
               (case db_call s2 of
                  (Some m, s3) \<Rightarrow> (Inl (OtherError m), s3)
                | (None, s3) \<Rightarrow>
                    (Inr (), s3\<lparr>stats_collection := stats_collection s3 @ [initial_stats t]\<rparr>)))
          else (Inr (), s1))"

text \<open>
  \<open>start_scraper_run\<close>: the run document is inserted, the run counter of the
  statistics document is incremented (with upsert), the id of the run is returned.
\<close>

definition start_scraper_run :: "db \<Rightarrow> string option \<Rightarrow> (exn + object_id) \<times> db" where
  "start_scraper_run s source =
     (case now s of (t, s1) \<Rightarrow>
        (case db_call s1 of
           (Some m, s2) \<Rightarrow> (Inl (OtherError m), s2)
         | (None, s2) \<Rightarrow>
             (let rid = next_oid s2;
                  s3 = s2\<lparr>scraper_runs_collection := scraper_runs_collection s2 @
                          [\<lparr>run_id = rid, started_at = t, run_status = ''running'',
                            run_source = source, articles_scraped = 0, duplicates_found = 0,
                            run_errors = 0, ended_at = None\<rparr>],
                        next_oid := Suc rid\<rparr>
              in (case stats_update_one s3
                         (\<lambda>d. d\<lparr>total_scraper_runs := inc_field (total_scraper_runs d) 1\<rparr>) of
                    (Inl e, s4) \<Rightarrow> (Inl e, s4)
                  | (Inr _, s4) \<Rightarrow> (Inr rid, s4)))))"

text \<open>
  The update document of \<open>update_scraper_run\<close> applied to a run: each counter is
  incremented when its argument is positive, the status is set when the argument is
  truthy. Nothing in it reads the status or the end time of the run.
\<close>

definition apply_run_update ::
  "int \<Rightarrow> int \<Rightarrow> int \<Rightarrow> string option \<Rightarrow> scraper_run \<Rightarrow> scraper_run" where
  "apply_run_update n_articles n_duplicates n_errors st r =
     (let r1 = (if n_articles > 0
                then r\<lparr>articles_scraped := articles_scraped r + n_articles\<rparr> else r);
          r2 = (if n_duplicates > 0
                then r1\<lparr>duplicates_found := duplicates_found r1 + n_duplicates\<rparr> else r1);
          r3 = (if n_errors > 0 then r2\<lparr>run_errors := run_errors r2 + n_errors\<rparr> else r2)
      in (if truthy st then r3\<lparr>run_status := the st\<rparr> else r3))"

text \<open>
  \<open>update_scraper_run\<close>: one \<open>update_one\<close> on the run with the given id; a run id
  that matches no document changes nothing. The method returns \<open>None\<close>.
\<close>

definition update_scraper_run ::
  "db \<Rightarrow> object_id \<Rightarrow> int \<Rightarrow> int \<Rightarrow> int \<Rightarrow> string option \<Rightarrow> (exn + unit) \<times> db" where
  "update_scraper_run s rid n_articles n_duplicates n_errors st =
     (case db_call s of
        (Some m, s1) \<Rightarrow> (Inl (OtherError m), s1)
      | (None, s1) \<Rightarrow>
          (Inr (), s1\<lparr>scraper_runs_collection :=
                  update_first (\<lambda>r. run_id r = rid)
                    (apply_run_update n_articles n_duplicates n_errors st)
                    (scraper_runs_collection s1)\<rparr>))"

text \<open>\<open>end_scraper_run\<close>: the status and the end time of the run are set.\<close>

definition end_scraper_run :: "db \<Rightarrow> object_id \<Rightarrow> string \<Rightarrow> (exn + unit) \<times> db" where
  "end_scraper_run s rid st =
     (case now s of (t, s1) \<Rightarrow>
        (case db_call s1 of
           (Some m, s2) \<Rightarrow> (Inl (OtherError m), s2)
         | (None, s2) \<Rightarrow>
             (Inr (), s2\<lparr>scraper_runs_collection :=
                     update_first (\<lambda>r. run_id r = rid)
                       (\<lambda>r. r\<lparr>run_status := st, ended_at := Some t\<rparr>)
                       (scraper_runs_collection s2)\<rparr>)))"

text \<open>The dictionary \<open>get_database_stats\<close> returns.\<close>

record stats_view =
  view_total_articles :: nat
  view_total_seen_urls :: nat
  view_total_duplicates :: int
  view_total_scraper_runs :: nat
  view_last_updated :: "timestamp option"
  view_database_size_bytes :: nat
  view_storage_engine :: string
  view_connection_string :: string
  view_sources :: "(string \<times> source_stats) list"

text \<open>\<open>str.split\<close> on one character, and the greatest \<open>scraped_at\<close> (absent is least).\<close>

fun split_on :: "char \<Rightarrow> string \<Rightarrow> string list" where
  "split_on c [] = [[]]"
| "split_on c (x # xs) =
     (if x = c then [] # split_on c xs
      else (case split_on c xs of [] \<Rightarrow> [[x]] | y # ys \<Rightarrow> (x # y) # ys))"

fun max_opt :: "nat option \<Rightarrow> nat option \<Rightarrow> nat option" where
  "max_opt None y = y"
| "max_opt x None = x"
| "max_opt (Some a) (Some b) = Some (max a b)"

definition host_part :: "string \<Rightarrow> string" where
  "host_part cs =
     (if CHR ''@'' \<in> set cs
      then (case split_on (CHR ''@'') cs of a # b # rest \<Rightarrow> b | _ \<Rightarrow> [])
      else cs)"

text \<open>A statistics document with no field is an empty dictionary, which is falsy.\<close>

definition stats_doc_falsy :: "stats_doc option \<Rightarrow> bool" where
  "stats_doc_falsy d =
     (case d of None \<Rightarrow> True
      | Some x \<Rightarrow> total_articles x = None \<and> total_duplicates x = None \<and>
          total_scraper_runs x = None \<and> last_updated x = None \<and> sources x = [])"

text \<open>
  \<open>get_database_stats\<close>. Seven database calls, or eight when the statistics document
  is missing; the method has no \<open>try\<close>, so an exception of any of them leaves it.
  \<open>total_articles\<close> of the result is the count of the article collection.
\<close>

definition get_database_stats :: "db \<Rightarrow> (exn + stats_view) \<times> db" where
  "get_database_stats s =
     (case db_call s of
        (Some m, s1) \<Rightarrow> (Inl (OtherError m), s1)
      | (None, s1) \<Rightarrow>
     (case (let found = (case stats_collection s1 of [] \<Rightarrow> None | d # ds \<Rightarrow> Some d)
            in if stats_doc_falsy found then
                 (case articles_count_documents s1 of
                    (Inl e, s2) \<Rightarrow> (Inl e, s2)
                  | (Inr n, s2) \<Rightarrow>
                      (case now s2 of (t, s3) \<Rightarrow>
                         (Inr (empty_stats_doc\<lparr>total_articles := Some (int n),
                                 total_duplicates := Some 0, last_updated := Some t\<rparr>), s3)))
               else (Inr (the found), s1)) of
        (Inl e, s3) \<Rightarrow> (Inl e, s3)
      | (Inr doc, s3) \<Rightarrow>
     (case articles_count_documents s3 of
        (Inl e, s4) \<Rightarrow> (Inl e, s4)
      | (Inr n_articles, s4) \<Rightarrow>
     (case db_call s4 of
        (Some m, s5) \<Rightarrow> (Inl (OtherError m), s5)
      | (None, s5) \<Rightarrow>
     (case db_call s5 of
        (Some m, s6) \<Rightarrow> (Inl (OtherError m), s6)
      | (None, s6) \<Rightarrow>
     (case db_call s6 of
        (Some m, s7) \<Rightarrow> (Inl (OtherError m), s7)
      | (None, s7) \<Rightarrow>
     (case db_call s7 of
        (Some m, s8) \<Rightarrow> (Inl (OtherError m), s8)
      | (None, s8) \<Rightarrow>
          (Inr \<lparr>view_total_articles = n_articles,
                view_total_seen_urls = length (seen_urls_collection s5),
                view_total_duplicates =
                  (case total_duplicates doc of None \<Rightarrow> 0 | Some v \<Rightarrow> v),
                view_total_scraper_runs = length (scraper_runs_collection s6),
                view_last_updated =
                  foldr max_opt (map (\<lambda>d. scraped_at (snd d)) (articles_collection s7)) None,
                view_database_size_bytes = (case data_size s8 of None \<Rightarrow> 0 | Some v \<Rightarrow> v),
                view_storage_engine = ''MongoDB Atlas'',
                view_connection_string = host_part (connection_string s8),
                view_sources = sources doc\<rparr>, s8))))))))"

section \<open>The media store (twitter_mongo_manager.py, upload_media_to_gridfs.py)\<close>


















section \<open>Notions the properties are stated with\<close>

text \<open>
  \<open>submit_all\<close> applies \<open>add_article\<close> to every item of a list in order, whatever
  the outcome of the items before it, and collects the outcomes. It is the reference
  the batch operation is compared with.
\<close>

definition outcome_status :: "exn + result \<Rightarrow> string" where
  "outcome_status x = (case x of Inl e \<Rightarrow> ''raised'' | Inr r \<Rightarrow> status r)"

fun submit_all :: "db \<Rightarrow> article list \<Rightarrow> (exn + result) list \<times> db" where
  "submit_all s [] = ([], s)"
| "submit_all s (a # as) =
     (case add_article s a of (r, s') \<Rightarrow>
        (case submit_all s' as of (rs, s'') \<Rightarrow> (r # rs, s'')))"

definition count_status :: "string \<Rightarrow> (exn + result) list \<Rightarrow> nat" where
  "count_status st rs = length (filter (\<lambda>x. outcome_status x = st) rs)"

fun duplicate_url_of :: "exn + result \<Rightarrow> string list" where
  "duplicate_url_of (Inr (Duplicate u)) = [u]"
| "duplicate_url_of _ = []"

fun returned :: "exn + result \<Rightarrow> bool" where
  "returned (Inr r) = True"
| "returned (Inl e) = False"

definition empty_db :: db where
  "empty_db = \<lparr>articles_collection = [], seen_urls_collection = [], stats_collection = [],
     scraper_runs_collection = [], clock = 0, next_oid = 0, data_size = None,
     connection_string = ''mongodb://localhost'', faults = []\<rparr>"

text \<open>
  The keys of the stored articles and of the ledger, in insertion order, and the
  condition the unique index on \<open>url\<close> maintains.
\<close>

definition stored_urls :: "db \<Rightarrow> string option list" where
  "stored_urls s = map (\<lambda>d. url (snd d)) (articles_collection s)"

definition ledger_urls :: "db \<Rightarrow> string list" where
  "ledger_urls s = map seen_url (seen_urls_collection s)"

definition url_index_ok :: "db \<Rightarrow> bool" where
  "url_index_ok s = distinct (stored_urls s)"

text \<open>The occurrence counters of the ledger entries of a key.\<close>

definition seen_counts :: "db \<Rightarrow> string \<Rightarrow> int list" where
  "seen_counts s k = map seen_count (filter (\<lambda>e. seen_url e = k) (seen_urls_collection s))"

text \<open>
  Every key of the ledger is the key of a stored article; the stored keys are exactly
  the keys of the ledger; the url of a \<open>success\<close> outcome.
\<close>

definition ledger_in_store :: "db \<Rightarrow> bool" where
  "ledger_in_store s = (\<forall>k \<in> set (ledger_urls s). Some k \<in> set (stored_urls s))"

definition ledger_matches_store :: "db \<Rightarrow> bool" where
  "ledger_matches_store s = (set (stored_urls s) = Some ` set (ledger_urls s))"

fun success_url_of :: "exn + result \<Rightarrow> string list" where
  "success_url_of (Inr (Success u n i)) = [u]"
| "success_url_of _ = []"

text \<open>
  The run with a given id; a database after \<open>__init__\<close> on an empty server; one
  article; a run that was started, updated with five articles and then ended; the
  duplicate counters of the statistics documents.
\<close>

definition find_run :: "db \<Rightarrow> object_id \<Rightarrow> scraper_run option" where
  "find_run s rid = find (\<lambda>r. run_id r = rid) (scraper_runs_collection s)"

definition article_A :: article where
  "article_A = \<lparr>url = Some ''A'', website_name = Some ''X'', scraped_at = None, content = ''c''\<rparr>"

definition fresh_db :: db where
  "fresh_db = snd (initialize_stats empty_db)"

definition open_run_db :: db where
  "open_run_db = snd (update_scraper_run (snd (start_scraper_run fresh_db (Some ''X''))) 0 5 0 0 None)"

definition closed_run_db :: db where
  "closed_run_db = snd (end_scraper_run open_run_db 0 ''completed'')"

definition stats_total_duplicates :: "db \<Rightarrow> int option list" where
  "stats_total_duplicates s = map total_duplicates (stats_collection s)"

definition stats_source :: "db \<Rightarrow> string \<Rightarrow> source_stats option list" where
  "stats_source s n = map (\<lambda>d. map_of (sources d) n) (stats_collection s)"








section \<open>What each call changes\<close>

lemma db_call_frame:
  "articles_collection (snd (db_call s)) = articles_collection s"
  "seen_urls_collection (snd (db_call s)) = seen_urls_collection s"
  "stats_collection (snd (db_call s)) = stats_collection s"
  "scraper_runs_collection (snd (db_call s)) = scraper_runs_collection s"
  "next_oid (snd (db_call s)) = next_oid s"
  by (simp_all add: db_call_def split: list.splits)

lemma db_call_no_faults: "faults s = [] \<Longrightarrow> db_call s = (None, s)"
  by (simp add: db_call_def)

lemma update_stats_frame:
  "articles_collection (update_stats s x y src) = articles_collection s"
  "seen_urls_collection (update_stats s x y src) = seen_urls_collection s"
  "scraper_runs_collection (update_stats s x y src) = scraper_runs_collection s"
  by (simp_all add: update_stats_def now_def stats_update_one_def db_call_def
        split: prod.splits list.splits option.splits)

lemma update_stats_no_faults: "faults s = [] \<Longrightarrow> faults (update_stats s x y src) = []"
  by (simp add: update_stats_def now_def stats_update_one_def db_call_def
        split: prod.splits list.splits option.splits)

lemma map_seen_url_update_first:
  "map seen_url (update_first p (\<lambda>e. e\<lparr>last_seen := t, seen_count := seen_count e + 1\<rparr>) xs)
     = map seen_url xs"
  by (induction xs) auto

lemma track_duplicate_articles:
  "articles_collection (track_duplicate s u src) = articles_collection s"
  by (simp add: track_duplicate_def now_def seen_update_one_def db_call_def update_stats_frame
        split: prod.splits list.splits option.splits sum.splits)

lemma track_duplicate_ledger:
  "ledger_urls (track_duplicate s u src) = ledger_urls s"
  by (auto simp add: ledger_urls_def track_duplicate_def now_def seen_update_one_def db_call_def
        update_stats_frame map_seen_url_update_first
        split: prod.splits list.splits option.splits sum.splits)

lemma track_duplicate_no_faults: "faults s = [] \<Longrightarrow> faults (track_duplicate s u src) = []"
  by (simp add: track_duplicate_def now_def seen_update_one_def db_call_def update_stats_no_faults
        split: prod.splits list.splits option.splits sum.splits)

lemma add_to_seen_urls_articles:
  "articles_collection (add_to_seen_urls s u src) = articles_collection s"
  by (auto simp add: add_to_seen_urls_def now_def seen_insert_one_def db_call_def
        split: prod.splits list.splits option.splits)

lemma add_to_seen_urls_no_faults: "faults s = [] \<Longrightarrow> faults (add_to_seen_urls s u src) = []"
  by (auto simp add: add_to_seen_urls_def now_def seen_insert_one_def db_call_def
        split: prod.splits list.splits option.splits)

lemma add_to_seen_urls_ledger:
  "ledger_urls (add_to_seen_urls s u src) = ledger_urls s \<or>
   (u \<notin> set (ledger_urls s) \<and> ledger_urls (add_to_seen_urls s u src) = ledger_urls s @ [u])"
  by (auto simp add: ledger_urls_def add_to_seen_urls_def now_def seen_insert_one_def db_call_def
        split: prod.splits list.splits option.splits)

lemma add_to_seen_urls_ledger_no_faults:
  "faults s = [] \<Longrightarrow> u \<in> set (ledger_urls (add_to_seen_urls s u src))"
  by (auto simp add: ledger_urls_def add_to_seen_urls_def now_def seen_insert_one_def db_call_def
        split: prod.splits list.splits option.splits)


lemma seen_count_documents_frame:
  "articles_collection (snd (seen_count_documents s u)) = articles_collection s"
  "seen_urls_collection (snd (seen_count_documents s u)) = seen_urls_collection s"
  by (simp_all add: seen_count_documents_def db_call_def split: list.splits option.splits)

lemma articles_count_documents_frame:
  "articles_collection (snd (articles_count_documents s)) = articles_collection s"
  "seen_urls_collection (snd (articles_count_documents s)) = seen_urls_collection s"
  by (simp_all add: articles_count_documents_def db_call_def split: list.splits option.splits)

lemma count_documents_exn:
  "fst (seen_count_documents s u) \<noteq> Inl DuplicateKeyError"
  "fst (articles_count_documents s) \<noteq> Inl DuplicateKeyError"
  by (simp_all add: seen_count_documents_def articles_count_documents_def db_call_def
        split: list.splits option.splits)

lemma articles_insert_one_cases:
  "(\<exists>m. fst (articles_insert_one s a) = Inl (OtherError m) \<and>
        stored_urls (snd (articles_insert_one s a)) = stored_urls s) \<or>
   (fst (articles_insert_one s a) = Inl DuplicateKeyError \<and> url a \<in> set (stored_urls s) \<and>
        stored_urls (snd (articles_insert_one s a)) = stored_urls s) \<or>
   (\<exists>i. fst (articles_insert_one s a) = Inr i \<and> url a \<notin> set (stored_urls s) \<and>
        stored_urls (snd (articles_insert_one s a)) = stored_urls s @ [url a])"
  by (auto simp add: articles_insert_one_def stored_urls_def db_call_def
        split: list.splits option.splits)

lemma stored_urls_cong:
  "articles_collection s' = articles_collection s \<Longrightarrow> stored_urls s' = stored_urls s"
  by (simp add: stored_urls_def)

lemma add_article_try_stored:
  "(stored_urls (snd (add_article_try s a u)) = stored_urls s \<and>
      (\<forall>v n i. fst (add_article_try s a u) \<noteq> Inr (Success v n i)) \<and>
      (fst (add_article_try s a u) = Inl DuplicateKeyError \<longrightarrow> url a \<in> set (stored_urls s))) \<or>
   (url a \<notin> set (stored_urls s) \<and>
      stored_urls (snd (add_article_try s a u)) = stored_urls s @ [url a] \<and>
      fst (add_article_try s a u) \<noteq> Inl DuplicateKeyError)"
proof (cases "seen_count_documents s u")
  case (Pair r s1)
  have s1: "stored_urls s1 = stored_urls s"
    using seen_count_documents_frame(1)[of s u] Pair by (simp add: stored_urls_def)
  show ?thesis
  proof (cases r)
    case (Inl e)
    then show ?thesis using Pair s1 count_documents_exn(1)[of s u]
      by (auto simp: add_article_try_def)
  next
    case (Inr n)
    show ?thesis
    proof (cases "n > 0")
      case True
      then show ?thesis using Pair Inr s1
        by (simp add: add_article_try_def stored_urls_def track_duplicate_articles)
    next
      case False
      define p where "p = (if scraped_at a = None
                   then (case now s1 of (t, s2) \<Rightarrow> (a\<lparr>scraped_at := Some t\<rparr>, s2))
                   else (a, s1))"
      obtain a' s2 where p: "p = (a', s2)" by (cases p)
      have a': "url a' = url a" and s2: "stored_urls s2 = stored_urls s"
        using p s1 by (auto simp: p_def now_def stored_urls_def split: if_splits)
      have eq: "add_article_try s a u =
        (case articles_insert_one s2 a' of
                    (Inl e, s3) \<Rightarrow> (Inl e, s3)
                  | (Inr oid, s3) \<Rightarrow>
                      (let s4 = add_to_seen_urls s3 u (website_name a');
                           s5 = update_stats s4 1 0 (website_name a')
                       in (case articles_count_documents s5 of
                             (Inl e, s6) \<Rightarrow> (Inl e, s6)
                           | (Inr n_total, s6) \<Rightarrow> (Inr (Success u n_total oid), s6))))"
        using Pair Inr False p unfolding add_article_try_def p_def by simp
      obtain r3 s3 where i: "articles_insert_one s2 a' = (r3, s3)" by (cases "articles_insert_one s2 a'")
      have fr: "stored_urls (snd (articles_count_documents (update_stats (add_to_seen_urls s3 u w) 1 0 w))) = stored_urls s3" for w
        by (simp add: stored_urls_def articles_count_documents_frame update_stats_frame add_to_seen_urls_articles)
      show ?thesis
        using articles_insert_one_cases[of s2 a'] i a' s2 fr[of "website_name a'"]
          count_documents_exn(2)[of "update_stats (add_to_seen_urls s3 u (website_name a')) 1 0 (website_name a')"]
        by (auto simp: eq Let_def split: prod.splits sum.splits)
    qed
  qed
qed

section \<open>The batch loop\<close>

lemma add_article_returns: "\<exists>r. fst (add_article s a) = Inr r"
  by (auto simp: add_article_def split: prod.splits sum.splits exn.splits)

lemma submit_all_Cons:
  "submit_all s (a # as) =
     (fst (add_article s a) # fst (submit_all (snd (add_article s a)) as),
      snd (submit_all (snd (add_article s a)) as))"
  by (simp split: prod.splits)

lemma submit_all_length: "length (fst (submit_all s as)) = length as"
  by (induction as arbitrary: s) (simp_all add: submit_all_Cons del: submit_all.simps(2))

lemma submit_all_returned: "list_all returned (fst (submit_all s as))"
proof (induction as arbitrary: s)
  case Nil
  show ?case by simp
next
  case (Cons a as)
  obtain r s' where r: "add_article s a = (Inr r, s')"
    using add_article_returns[of s a] by (cases "add_article s a") auto
  show ?case using Cons.IH[of s'] by (simp add: r submit_all_Cons del: submit_all.simps(2))
qed

lemma count_status_total:
  "list_all returned rs \<Longrightarrow>
   count_status ''success'' rs + count_status ''duplicate'' rs + count_status ''error'' rs
     = length rs"
proof (induction rs)
  case Nil
  show ?case by (simp add: count_status_def)
next
  case (Cons x rs)
  then obtain r where x: "x = Inr r" by (cases x) auto
  show ?case using Cons by (cases r) (simp_all add: x count_status_def outcome_status_def)
qed

lemma duplicate_urls_length:
  "length (concat (map duplicate_url_of rs)) = count_status ''duplicate'' rs"
proof (induction rs)
  case Nil
  show ?case by (simp add: count_status_def)
next
  case (Cons x rs)
  show ?case
  proof (cases x)
    case (Inl e)
    then show ?thesis using Cons by (simp add: count_status_def outcome_status_def)
  next
    case (Inr r)
    then show ?thesis using Cons by (cases r) (simp_all add: count_status_def outcome_status_def)
  qed
qed

lemma batch_loop_submit_all:
  "batch_loop s acc as =
     (Inr (acc\<lparr>added := added acc + count_status ''success'' (fst (submit_all s as)),
               duplicates := duplicates acc + count_status ''duplicate'' (fst (submit_all s as)),
               errors := errors acc + count_status ''error'' (fst (submit_all s as)),
               duplicate_urls := duplicate_urls acc @ concat (map duplicate_url_of (fst (submit_all s as)))\<rparr>),
      snd (submit_all s as))"
proof (induction as arbitrary: s acc)
  case Nil
  then show ?case by (simp add: count_status_def)
next
  case (Cons a as)
  obtain r s' where r: "add_article s a = (Inr r, s')"
    using add_article_returns[of s a] by (cases "add_article s a") auto
  show ?case
    by (cases r)
      (simp_all add: r Cons.IH submit_all_Cons count_status_def outcome_status_def
         del: submit_all.simps(2))
qed

section \<open>What a submission does to the store and the ledger\<close>

lemma add_article_try_result:
  "fst (add_article_try s a u) = Inr r \<Longrightarrow> r = Duplicate u \<or> (\<exists>n i. r = Success u n i)"
  by (auto simp: add_article_try_def Let_def split: prod.splits sum.splits if_splits)

lemma add_article_stored:
  "(stored_urls (snd (add_article s a)) = stored_urls s \<and>
      (\<forall>u n i. fst (add_article s a) \<noteq> Inr (Success u n i))) \<or>
   (url a \<notin> set (stored_urls s) \<and>
      stored_urls (snd (add_article s a)) = stored_urls s @ [url a])"
proof (cases "truthy (url a)")
  case False
  then show ?thesis by (simp add: add_article_def)
next
  case True
  obtain r s' where t: "add_article_try s a (the (url a)) = (r, s')"
    by (cases "add_article_try s a (the (url a))")
  have td: "stored_urls (track_duplicate s' u w) = stored_urls s'" for u w
    by (simp add: stored_urls_def track_duplicate_articles)
  show ?thesis
    using add_article_try_stored[of s a "the (url a)"] True t td
    by (auto simp: add_article_def split: sum.splits exn.splits)
qed

lemma add_article_index_ok: "url_index_ok s \<Longrightarrow> url_index_ok (snd (add_article s a))"
  using add_article_stored[of s a] by (auto simp: url_index_ok_def)

lemma add_article_stored_mono:
  "k \<in> set (stored_urls s) \<Longrightarrow> k \<in> set (stored_urls (snd (add_article s a)))"
  using add_article_stored[of s a] by auto

lemma add_article_success_stored:
  "fst (add_article s a) = Inr (Success u n i) \<Longrightarrow>
     url a = Some u \<and> Some u \<in> set (stored_urls (snd (add_article s a)))"
proof -
  assume a: "fst (add_article s a) = Inr (Success u n i)"
  have t: "truthy (url a)" using a by (auto simp: add_article_def split: if_splits)
  then obtain k where k: "url a = Some k" by (cases "url a") auto
  have "fst (add_article_try s a k) = Inr (Success u n i)"
    using a t k by (auto simp: add_article_def split: prod.splits sum.splits exn.splits)
  then have "u = k" using add_article_try_result[of s a k "Success u n i"] by simp
  then show ?thesis using add_article_stored[of s a] a k by auto
qed

lemma submit_all_index_ok: "url_index_ok s \<Longrightarrow> url_index_ok (snd (submit_all s as))"
  by (induction as arbitrary: s) (simp_all add: submit_all_Cons add_article_index_ok del: submit_all.simps(2))

lemma submit_all_stored_mono:
  "k \<in> set (stored_urls s) \<Longrightarrow> k \<in> set (stored_urls (snd (submit_all s as)))"
  by (induction as arbitrary: s) (simp_all add: submit_all_Cons add_article_stored_mono del: submit_all.simps(2))


lemma seen_insert_one_ledger:
  "ledger_urls (snd (seen_insert_one s e)) = ledger_urls s \<or>
   ledger_urls (snd (seen_insert_one s e)) = ledger_urls s @ [seen_url e]"
  by (auto simp: seen_insert_one_def db_call_def ledger_urls_def split: list.splits option.splits)

lemma add_to_seen_urls_ledger2:
  "ledger_urls (add_to_seen_urls s u src) = ledger_urls s \<or>
   ledger_urls (add_to_seen_urls s u src) = ledger_urls s @ [u]"
  using add_to_seen_urls_ledger[of s u src] by auto

lemma ledger_urls_cong:
  "seen_urls_collection s' = seen_urls_collection s \<Longrightarrow> ledger_urls s' = ledger_urls s"
  by (simp add: ledger_urls_def)

lemma articles_insert_one_seen:
  "seen_urls_collection (snd (articles_insert_one s a)) = seen_urls_collection s"
  by (auto simp: articles_insert_one_def db_call_def split: list.splits option.splits)


lemma add_article_try_ledger:
  "ledger_urls (snd (add_article_try s a u)) = ledger_urls s \<or>
   (ledger_urls (snd (add_article_try s a u)) = ledger_urls s @ [u] \<and>
    stored_urls (snd (add_article_try s a u)) = stored_urls s @ [url a])"
proof (cases "seen_count_documents s u")
  case (Pair r s1)
  have s1: "ledger_urls s1 = ledger_urls s" "stored_urls s1 = stored_urls s"
    using seen_count_documents_frame[of s u] Pair by (simp_all add: ledger_urls_def stored_urls_def)
  show ?thesis
  proof (cases r)
    case (Inl e)
    then show ?thesis using Pair s1 by (simp add: add_article_try_def)
  next
    case (Inr n)
    show ?thesis
    proof (cases "n > 0")
      case True
      then show ?thesis using Pair Inr s1
        by (simp add: add_article_try_def track_duplicate_ledger)
    next
      case False
      define p where "p = (if scraped_at a = None
                   then (case now s1 of (t, s2) \<Rightarrow> (a\<lparr>scraped_at := Some t\<rparr>, s2))
                   else (a, s1))"
      obtain a' s2 where p: "p = (a', s2)" by (cases p)
      have a': "url a' = url a" and s2: "ledger_urls s2 = ledger_urls s" "stored_urls s2 = stored_urls s"
        using p s1 by (auto simp: p_def now_def ledger_urls_def stored_urls_def split: if_splits)
      have eq: "add_article_try s a u =
        (case articles_insert_one s2 a' of
                    (Inl e, s3) \<Rightarrow> (Inl e, s3)
                  | (Inr oid, s3) \<Rightarrow>
                      (let s4 = add_to_seen_urls s3 u (website_name a');
                           s5 = update_stats s4 1 0 (website_name a')
                       in (case articles_count_documents s5 of
                             (Inl e, s6) \<Rightarrow> (Inl e, s6)
                           | (Inr n_total, s6) \<Rightarrow> (Inr (Success u n_total oid), s6))))"
        using Pair Inr False p unfolding add_article_try_def p_def by simp
      obtain r3 s3 where i: "articles_insert_one s2 a' = (r3, s3)"
        by (cases "articles_insert_one s2 a'")
      have l3: "ledger_urls s3 = ledger_urls s"
        using articles_insert_one_seen[of s2 a'] i s2 by (simp add: ledger_urls_def)
      define s6 where "s6 = snd (articles_count_documents
          (update_stats (add_to_seen_urls s3 u (website_name a')) 1 0 (website_name a')))"
      have st6: "stored_urls s6 = stored_urls s3"
        by (simp add: s6_def stored_urls_def articles_count_documents_frame update_stats_frame
            add_to_seen_urls_articles)
      have l6: "ledger_urls s6 = ledger_urls (add_to_seen_urls s3 u (website_name a'))"
        by (simp add: s6_def ledger_urls_def articles_count_documents_frame update_stats_frame)
      show ?thesis
      proof (cases r3)
        case (Inl e)
        then show ?thesis using i l3 by (simp add: eq)
      next
        case (Inr oid)
        have snd_eq: "snd (add_article_try s a u) = s6"
          using i Inr by (simp add: eq Let_def s6_def split: prod.splits sum.splits)
        have "stored_urls s3 = stored_urls s @ [url a]"
          using articles_insert_one_cases[of s2 a'] i Inr a' s2 by auto
        then show ?thesis
          using add_to_seen_urls_ledger2[of s3 u "website_name a'"] l3 l6 st6 snd_eq by auto
      qed
    qed
  qed
qed

lemma add_article_ledger:
  "ledger_urls (snd (add_article s a)) = ledger_urls s \<or>
   (truthy (url a) \<and> ledger_urls (snd (add_article s a)) = ledger_urls s @ [the (url a)] \<and>
      stored_urls (snd (add_article s a)) = stored_urls s @ [url a])"
proof (cases "truthy (url a)")
  case False
  then show ?thesis by (simp add: add_article_def)
next
  case True
  obtain r s' where t: "add_article_try s a (the (url a)) = (r, s')"
    by (cases "add_article_try s a (the (url a))")
  have td: "stored_urls (track_duplicate s' u w) = stored_urls s'" for u w
    by (simp add: stored_urls_def track_duplicate_articles)
  show ?thesis
    using add_article_try_ledger[of s a "the (url a)"] add_article_try_stored[of s a "the (url a)"]
      True t td
    by (auto simp: add_article_def track_duplicate_ledger split: sum.splits exn.splits)
qed

lemma add_article_ledger_in_store:
  "ledger_in_store s \<Longrightarrow> ledger_in_store (snd (add_article s a))"
  using add_article_ledger[of s a] add_article_stored[of s a]
  by (cases "url a") (auto simp: ledger_in_store_def)

lemma submit_all_ledger_in_store:
  "ledger_in_store s \<Longrightarrow> ledger_in_store (snd (submit_all s as))"
  by (induction as arbitrary: s)
    (simp_all add: submit_all_Cons add_article_ledger_in_store del: submit_all.simps(2))


section \<open>Submissions when no storage call fails\<close>

lemmas write_path_defs =
  add_article_def add_article_try_def track_duplicate_def add_to_seen_urls_def update_stats_def
  seen_count_documents_def articles_count_documents_def articles_insert_one_def
  seen_insert_one_def seen_update_one_def stats_update_one_def db_call_def now_def

lemma in_set_filter_length:
  "k \<in> set (map seen_url xs) \<Longrightarrow> 0 < length (filter (\<lambda>e. seen_url e = k) xs)"
  by (induction xs) auto

lemma notin_set_filter:
  "k \<notin> set (map seen_url xs) \<Longrightarrow> filter (\<lambda>e. seen_url e = k) xs = []"
  by (induction xs) auto

lemma update_first_no_match:
  "k \<notin> set (map seen_url xs) \<Longrightarrow> update_first (\<lambda>e. seen_url e = k) f xs = xs"
  by (induction xs) auto

lemma seen_counts_update_first:
  "k \<in> set (map seen_url xs) \<Longrightarrow>
   map seen_count (filter (\<lambda>e. seen_url e = k)
      (update_first (\<lambda>e. seen_url e = k)
         (\<lambda>e. e\<lparr>last_seen := t, seen_count := seen_count e + 1\<rparr>) xs))
   = (hd (map seen_count (filter (\<lambda>e. seen_url e = k) xs)) + 1)
       # tl (map seen_count (filter (\<lambda>e. seen_url e = k) xs))"
  by (induction xs) auto

lemma add_article_fresh:
  assumes "faults s = []" "url a = Some k" "k \<noteq> []"
    "k \<notin> set (ledger_urls s)" "Some k \<notin> set (stored_urls s)"
  shows "fst (add_article s a) = Inr (Success k (Suc (length (articles_collection s))) (next_oid s))"
    and "faults (snd (add_article s a)) = []"
    and "stored_urls (snd (add_article s a)) = stored_urls s @ [Some k]"
    and "ledger_urls (snd (add_article s a)) = ledger_urls s @ [k]"
    and "seen_counts (snd (add_article s a)) k = [1]"
  using assms
  by (auto simp: write_path_defs Let_def ledger_urls_def stored_urls_def seen_counts_def
      notin_set_filter split: list.splits)

lemma add_article_ledger_hit:
  assumes "faults s = []" "url a = Some k" "k \<noteq> []" "k \<in> set (ledger_urls s)"
  shows "fst (add_article s a) = Inr (Duplicate k)"
    and "faults (snd (add_article s a)) = []"
    and "stored_urls (snd (add_article s a)) = stored_urls s"
    and "ledger_urls (snd (add_article s a)) = ledger_urls s"
    and "seen_counts (snd (add_article s a)) k = (hd (seen_counts s k) + 1) # tl (seen_counts s k)"
  using assms in_set_filter_length[of k "seen_urls_collection s"]
  by (auto simp: write_path_defs Let_def ledger_urls_def stored_urls_def seen_counts_def
      seen_counts_update_first map_seen_url_update_first split: list.splits)

lemma add_article_index_hit:
  assumes "faults s = []" "url a = Some k" "k \<noteq> []"
    "k \<notin> set (ledger_urls s)" "Some k \<in> set (stored_urls s)"
  shows "fst (add_article s a) = Inr (Duplicate k)"
    and "faults (snd (add_article s a)) = []"
    and "stored_urls (snd (add_article s a)) = stored_urls s"
    and "ledger_urls (snd (add_article s a)) = ledger_urls s"
  using assms
  by (auto simp: write_path_defs Let_def ledger_urls_def stored_urls_def 
      notin_set_filter update_first_no_match split: list.splits)


lemma add_article_no_faults_step:
  assumes "faults s = []" "ledger_matches_store s"
  shows "faults (snd (add_article s a)) = [] \<and> ledger_matches_store (snd (add_article s a)) \<and>
         set (stored_urls (snd (add_article s a)))
           = set (stored_urls s) \<union> Some ` set (success_url_of (fst (add_article s a)))"
proof (cases "truthy (url a)")
  case False
  then have "add_article s a = (Inr (Error ''missing_url''), s)" by (simp add: add_article_def)
  then show ?thesis using assms by simp
next
  case True
  then obtain k where k: "url a = Some k" "k \<noteq> []" by (cases "url a") auto
  have m: "set (stored_urls s) = Some ` set (ledger_urls s)"
    using assms(2) unfolding ledger_matches_store_def .
  show ?thesis
  proof (cases "k \<in> set (ledger_urls s)")
    case True
    note h = add_article_ledger_hit(1-4)[OF assms(1) k True]
    have "ledger_matches_store (snd (add_article s a))"
      unfolding ledger_matches_store_def h(3) h(4) by (rule m)
    then show ?thesis by (simp add: h)
  next
    case False
    then have ns: "Some k \<notin> set (stored_urls s)" unfolding m by blast
    note h = add_article_fresh(1-4)[OF assms(1) k False ns]
    have "ledger_matches_store (snd (add_article s a))"
      unfolding ledger_matches_store_def h(3) h(4) by (simp add: m)
    then show ?thesis by (simp add: h)
  qed
qed

lemma submit_all_no_faults:
  assumes "faults s = []" "ledger_matches_store s"
  shows "faults (snd (submit_all s as)) = [] \<and> ledger_matches_store (snd (submit_all s as)) \<and>
         set (stored_urls (snd (submit_all s as)))
           = set (stored_urls s) \<union> Some ` set (concat (map success_url_of (fst (submit_all s as))))"
  using assms
proof (induction as arbitrary: s)
  case Nil
  then show ?case by simp
next
  case (Cons a as)
  define s1 where "s1 = snd (add_article s a)"
  define r1 where "r1 = fst (add_article s a)"
  have st: "faults s1 = []" "ledger_matches_store s1"
    "set (stored_urls s1) = set (stored_urls s) \<union> Some ` set (success_url_of r1)"
    using add_article_no_faults_step[OF Cons.prems, of a] by (simp_all add: s1_def r1_def)
  have ih: "faults (snd (submit_all s1 as)) = []" "ledger_matches_store (snd (submit_all s1 as))"
     "set (stored_urls (snd (submit_all s1 as)))
       = set (stored_urls s1) \<union> Some ` set (concat (map success_url_of (fst (submit_all s1 as))))"
    using Cons.IH[OF st(1,2)] by simp_all
  have eq: "submit_all s (a # as) = (r1 # fst (submit_all s1 as), snd (submit_all s1 as))"
    by (simp add: submit_all_Cons s1_def r1_def del: submit_all.simps(2))
  have "set (stored_urls (snd (submit_all s1 as)))
      = set (stored_urls s) \<union> Some ` set (concat (map success_url_of (r1 # fst (submit_all s1 as))))"
    unfolding ih(3) st(3) by (simp add: image_Un Un_assoc)
  then show ?case unfolding eq using ih(1,2) by simp
qed

lemma seen_counts_in_ledger: "seen_counts s k = c # cs \<Longrightarrow> k \<in> set (ledger_urls s)"
proof -
  assume a: "seen_counts s k = c # cs"
  have "k \<notin> set (ledger_urls s) \<Longrightarrow> seen_counts s k = []"
    by (simp add: seen_counts_def ledger_urls_def notin_set_filter)
  then show ?thesis using a by auto
qed

lemma submit_all_duplicates:
  assumes "faults s = []" "k \<noteq> []" "\<forall>a \<in> set as. url a = Some k" "seen_counts s k = [c]"
  shows "fst (submit_all s as) = replicate (length as) (Inr (Duplicate k)) \<and>
         seen_counts (snd (submit_all s as)) k = [c + int (length as)] \<and>
         stored_urls (snd (submit_all s as)) = stored_urls s"
  using assms
proof (induction as arbitrary: s c)
  case Nil
  then show ?case by simp
next
  case (Cons a as)
  have k: "url a = Some k" using Cons.prems(3) by simp
  have l: "k \<in> set (ledger_urls s)" using Cons.prems(4) seen_counts_in_ledger by blast
  note h = add_article_ledger_hit[OF Cons.prems(1) k Cons.prems(2) l]
  have c1: "seen_counts (snd (add_article s a)) k = [c + 1]"
    using h(5) Cons.prems(4) by simp
  have ih: "fst (submit_all (snd (add_article s a)) as) = replicate (length as) (Inr (Duplicate k)) \<and>
         seen_counts (snd (submit_all (snd (add_article s a)) as)) k = [c + 1 + int (length as)] \<and>
         stored_urls (snd (submit_all (snd (add_article s a)) as)) = stored_urls (snd (add_article s a))"
    using Cons.IH[OF h(2) Cons.prems(2) _ c1] Cons.prems(3) by simp
  show ?case using h(1,3) ih by (simp add: submit_all_Cons del: submit_all.simps(2))
qed

lemma count_status_replicate_duplicate:
  "count_status ''duplicate'' (replicate n (Inr (Duplicate k))) = n"
  "count_status ''success'' (replicate n (Inr (Duplicate k))) = 0"
  by (induction n) (simp_all add: count_status_def outcome_status_def)

lemma filter_eq_notin: "y \<notin> set xs \<Longrightarrow> filter (\<lambda>x. x = y) xs = []"
  by (induction xs) auto

lemma distinct_count_le_1: "distinct xs \<Longrightarrow> length (filter (\<lambda>x. x = y) xs) \<le> 1"
  by (induction xs) (auto simp: filter_eq_notin)

lemma add_article_stored_hit:
  assumes "url b \<in> set (stored_urls s)"
  shows "stored_urls (snd (add_article s b)) = stored_urls s"
    and "fst (add_article s b) \<noteq> Inr (Success v n i)"
  using add_article_stored[of s b] assms by auto

lemma add_article_stored_hit_no_faults:
  assumes "faults s = []" "url b = Some k" "k \<noteq> []" "Some k \<in> set (stored_urls s)"
  shows "fst (add_article s b) = Inr (Duplicate k)"
proof (cases "k \<in> set (ledger_urls s)")
  case True
  then show ?thesis using add_article_ledger_hit(1)[OF assms(1-3)] by simp
next
  case False
  then show ?thesis using add_article_index_hit(1)[OF assms(1-3) False assms(4)] by simp
qed

lemma add_article_not_success:
  assumes "url b \<in> set (stored_urls s)"
  shows "outcome_status (fst (add_article s b)) \<noteq> ''success''"
proof -
  obtain r where r: "fst (add_article s b) = Inr r" using add_article_returns by blast
  have "\<And>v n i. r \<noteq> Success v n i" using add_article_stored_hit(2)[OF assms] r by auto
  then show ?thesis by (cases r) (auto simp: r outcome_status_def)
qed

section \<open>The statistics view\<close>

lemma get_database_stats_result:
  "get_database_stats s = (Inr v, s') \<Longrightarrow> view_total_articles v = length (articles_collection s)"
  by (auto simp: get_database_stats_def articles_count_documents_def db_call_def now_def Let_def
      split: list.splits option.splits prod.splits sum.splits if_splits)

lemma get_database_stats_returns:
  "faults s = [] \<Longrightarrow> \<exists>v s'. get_database_stats s = (Inr v, s')"
  by (auto simp: get_database_stats_def articles_count_documents_def db_call_def now_def Let_def
      split: list.splits option.splits prod.splits sum.splits if_splits)

section \<open>Runs\<close>

lemma find_update_first:
  "(\<And>x. p x \<Longrightarrow> p (f x)) \<Longrightarrow> find p (update_first p f xs) = map_option f (find p xs)"
  by (induction xs) auto

lemma run_id_apply_run_update: "run_id (apply_run_update a d e st r) = run_id r"
  by (simp add: apply_run_update_def Let_def)

lemma apply_run_update_counters:
  "articles_scraped (apply_run_update a d e st r) = articles_scraped r + max 0 a"
  "duplicates_found (apply_run_update a d e st r) = duplicates_found r + max 0 d"
  "run_errors (apply_run_update a d e st r) = run_errors r + max 0 e"
  "ended_at (apply_run_update a d e st r) = ended_at r"
  by (simp_all add: apply_run_update_def Let_def)

lemma end_scraper_run_no_faults:
  "faults s = [] \<Longrightarrow> end_scraper_run s rid st =
     (Inr (), s\<lparr>clock := Suc (clock s), scraper_runs_collection :=
         update_first (\<lambda>r. run_id r = rid) (\<lambda>r. r\<lparr>run_status := st, ended_at := Some (clock s)\<rparr>)
           (scraper_runs_collection s)\<rparr>)"
  by (simp add: end_scraper_run_def now_def db_call_def)

lemma update_scraper_run_no_faults:
  "faults s = [] \<Longrightarrow> update_scraper_run s rid a d e st =
     (Inr (), s\<lparr>scraper_runs_collection :=
         update_first (\<lambda>r. run_id r = rid) (apply_run_update a d e st)
           (scraper_runs_collection s)\<rparr>)"
  by (simp add: update_scraper_run_def db_call_def)

lemmas run_scenario_defs =
  open_run_db_def closed_run_db_def fresh_db_def empty_db_def initialize_stats_def
  initial_stats_def start_scraper_run_def update_scraper_run_def end_scraper_run_def
  stats_update_one_def apply_run_update_def db_call_def now_def Let_def

section \<open>The media store\<close>



lemma find_append_hit:
  "find P xs = Some x \<Longrightarrow> find P (xs @ ys) = Some x"
  by (induction xs) (auto split: if_splits)










section \<open>The properties\<close>

text \<open>
  C5. An article whose \<open>url\<close> is absent or empty is turned away: \<open>add_article\<close>
  returns the dictionary with status \<open>error\<close> and reason \<open>missing_url\<close> (the rejection
  for a missing key) and the whole state, with the article collection, the ledger and
  the statistics document, is the state before the call. This holds for every state
  and every schedule of storage failures.
\<close>

theorem add_article_missing_url:
  "url a = None \<or> url a = Some [] \<Longrightarrow> add_article s a = (Inr (Error ''missing_url''), s)"
  by (auto simp: add_article_def)

theorem add_article_missing_url_witness:
  "add_article (empty_db\<lparr>faults := [Some ''down'']\<rparr>)
       \<lparr>url = Some [], website_name = Some ''X'', scraped_at = None, content = ''text''\<rparr>
     = (Inr (Error ''missing_url''), empty_db\<lparr>faults := [Some ''down'']\<rparr>)
   \<and> add_article empty_db
       \<lparr>url = None, website_name = Some ''X'', scraped_at = None, content = ''text''\<rparr>
     = (Inr (Error ''missing_url''), empty_db)"
  using add_article_missing_url[of "\<lparr>url = Some [], website_name = Some ''X'',
          scraped_at = None, content = ''text''\<rparr>" "empty_db\<lparr>faults := [Some ''down'']\<rparr>"]
    add_article_missing_url[of "\<lparr>url = None, website_name = Some ''X'',
          scraped_at = None, content = ''text''\<rparr>" empty_db]
  by simp

text \<open>
  C8. For every list of articles, every state and every schedule of storage failures,
  \<open>add_articles_batch\<close> returns a summary (no exception leaves it), the state it leaves
  is the state after \<open>add_article\<close> has been applied to every item of the list in order,
  every one of these calls returns a dictionary, and the counts \<open>added\<close>, \<open>duplicates\<close>
  and \<open>errors\<close> of the summary are the numbers of items of the whole list with the
  outcome \<open>success\<close>, \<open>duplicate\<close> and \<open>error\<close>.
\<close>

theorem add_articles_batch_fail_independent:
  "\<exists>sm. add_articles_batch s as = (Inr sm, snd (submit_all s as)) \<and>
        length (fst (submit_all s as)) = length as \<and>
        list_all returned (fst (submit_all s as)) \<and>
        added sm = count_status ''success'' (fst (submit_all s as)) \<and>
        duplicates sm = count_status ''duplicate'' (fst (submit_all s as)) \<and>
        errors sm = count_status ''error'' (fst (submit_all s as))"
  by (simp add: add_articles_batch_def batch_loop_submit_all submit_all_length submit_all_returned)

text \<open>
  C10. For every list of articles, the summary of \<open>add_articles_batch\<close> has \<open>total\<close>
  equal to the length of the list, \<open>added + duplicates + errors\<close> equal to \<open>total\<close>, and
  \<open>duplicate_urls\<close> holds exactly the urls of the items whose outcome was \<open>duplicate\<close>,
  in the order of submission, so its length is \<open>duplicates\<close>.
\<close>

theorem add_articles_batch_summary:
  "\<exists>sm. fst (add_articles_batch s as) = Inr sm \<and>
        total_count sm = length as \<and>
        added sm + duplicates sm + errors sm = total_count sm \<and>
        length (duplicate_urls sm) = duplicates sm \<and>
        duplicate_urls sm = concat (map duplicate_url_of (fst (submit_all s as)))"
  using count_status_total[OF submit_all_returned, of s as]
  by (simp add: add_articles_batch_def batch_loop_submit_all submit_all_length
        duplicate_urls_length)

text \<open>
  C2. Take a state in which no storage call fails and in which the key \<open>k\<close> (not empty)
  is neither in the ledger nor in the article collection, as in a fresh database.
  Submitting an article with that key \<open>N \<ge> 1\<close> times in a row gives \<open>success\<close> for the
  first call and \<open>duplicate\<close> for each of the \<open>N - 1\<close> later calls, and afterwards the
  ledger holds one entry for \<open>k\<close>, whose \<open>seen_count\<close> is \<open>N\<close>.
\<close>

theorem add_article_repeated:
  assumes "faults s = []" "url a = Some k" "k \<noteq> []"
    "k \<notin> set (ledger_urls s)" "Some k \<notin> set (stored_urls s)" "0 < N"
  shows "(\<exists>n i. fst (submit_all s (replicate N a))
                  = Inr (Success k n i) # replicate (N - 1) (Inr (Duplicate k))) \<and>
         count_status ''success'' (fst (submit_all s (replicate N a))) = 1 \<and>
         count_status ''duplicate'' (fst (submit_all s (replicate N a))) = N - 1 \<and>
         seen_counts (snd (submit_all s (replicate N a))) k = [int N]"
proof -
  obtain M where N: "N = Suc M" using assms(6) by (cases N) auto
  define s1 where "s1 = snd (add_article s a)"
  define r1 :: "exn + result"
    where "r1 = Inr (Success k (Suc (length (articles_collection s))) (next_oid s))"
  note f = add_article_fresh[OF assms(1-5)]
  have fr: "fst (add_article s a) = r1" using f(1) by (simp add: r1_def)
  have all: "\<forall>x \<in> set (replicate M a). url x = Some k" using assms(2) by simp
  have d: "fst (submit_all s1 (replicate M a)) = replicate M (Inr (Duplicate k))"
    "seen_counts (snd (submit_all s1 (replicate M a))) k = [1 + int M]"
    using submit_all_duplicates[OF f(2) assms(3) all f(5)] by (simp_all add: s1_def)
  have eq: "submit_all s (replicate N a)
      = (r1 # replicate M (Inr (Duplicate k)), snd (submit_all s1 (replicate M a)))"
    unfolding N replicate_Suc submit_all_Cons fr s1_def[symmetric] d(1) ..
  have c1: "count_status ''success'' (r1 # replicate M (Inr (Duplicate k))) = 1"
    using count_status_replicate_duplicate(2)[of M k]
    by (simp add: count_status_def outcome_status_def r1_def)
  have c2: "count_status ''duplicate'' (r1 # replicate M (Inr (Duplicate k))) = M"
    using count_status_replicate_duplicate(1)[of M k]
    by (simp add: count_status_def outcome_status_def r1_def)
  show ?thesis unfolding eq fst_conv snd_conv c1 c2 d(2)
    by (simp add: N r1_def)
qed

theorem add_article_repeated_witness:
  "faults empty_db = [] \<and>
   count_status ''success'' (fst (submit_all empty_db (replicate 3
      \<lparr>url = Some ''A'', website_name = Some ''X'', scraped_at = None, content = ''c''\<rparr>))) = 1 \<and>
   count_status ''duplicate'' (fst (submit_all empty_db (replicate 3
      \<lparr>url = Some ''A'', website_name = Some ''X'', scraped_at = None, content = ''c''\<rparr>))) = 3 - 1 \<and>
   seen_counts (snd (submit_all empty_db (replicate 3
      \<lparr>url = Some ''A'', website_name = Some ''X'', scraped_at = None, content = ''c''\<rparr>))) ''A''
     = [int 3]"
  using add_article_repeated[of empty_db
      "\<lparr>url = Some ''A'', website_name = Some ''X'', scraped_at = None, content = ''c''\<rparr>" "''A''" 3]
  by (simp add: empty_db_def ledger_urls_def stored_urls_def)

text \<open>
  C1. Start from any state whose article collection satisfies the unique index on
  \<open>url\<close>, with any schedule of storage failures. After any sequence of submissions the
  index still holds, so for every key at most one article with that key is stored.
  When a submission returns \<open>success\<close> for key \<open>k\<close>, an article with key \<open>k\<close> is stored
  and stays stored through every later sequence of submissions. In any state where an
  article with key \<open>k\<close> is stored, a submission with key \<open>k\<close> inserts nothing and does
  not return \<open>success\<close>; when no storage call fails and \<open>k\<close> is not empty it returns
  \<open>duplicate\<close>, through the ledger check or through the \<open>DuplicateKeyError\<close> of the
  index.
\<close>

theorem add_article_url_unique:
  assumes "url_index_ok s"
  shows "url_index_ok (snd (submit_all s as)) \<and>
         length (filter (\<lambda>x. x = Some k) (stored_urls (snd (submit_all s as)))) \<le> 1 \<and>
         (fst (add_article s a) = Inr (Success k n i) \<longrightarrow>
            Some k \<in> set (stored_urls (snd (submit_all (snd (add_article s a)) bs)))) \<and>
         (Some k \<in> set (stored_urls s) \<and> url b = Some k \<longrightarrow>
            stored_urls (snd (add_article s b)) = stored_urls s \<and>
            outcome_status (fst (add_article s b)) \<noteq> ''success'' \<and>
            (faults s = [] \<and> k \<noteq> [] \<longrightarrow> fst (add_article s b) = Inr (Duplicate k)))"
proof (intro conjI impI)
  show ok: "url_index_ok (snd (submit_all s as))" using assms by (rule submit_all_index_ok)
  show "length (filter (\<lambda>x. x = Some k) (stored_urls (snd (submit_all s as)))) \<le> 1"
    using ok unfolding url_index_ok_def by (rule distinct_count_le_1)
next
  assume "fst (add_article s a) = Inr (Success k n i)"
  then have "Some k \<in> set (stored_urls (snd (add_article s a)))"
    using add_article_success_stored by blast
  then show "Some k \<in> set (stored_urls (snd (submit_all (snd (add_article s a)) bs)))"
    by (rule submit_all_stored_mono)
next
  assume h: "Some k \<in> set (stored_urls s) \<and> url b = Some k"
  then have in_store: "url b \<in> set (stored_urls s)" by simp
  show "stored_urls (snd (add_article s b)) = stored_urls s"
    using in_store by (rule add_article_stored_hit(1))
  show "outcome_status (fst (add_article s b)) \<noteq> ''success''"
    using in_store by (rule add_article_not_success)
next
  assume h: "Some k \<in> set (stored_urls s) \<and> url b = Some k" and f: "faults s = [] \<and> k \<noteq> []"
  show "fst (add_article s b) = Inr (Duplicate k)"
    using add_article_stored_hit_no_faults[of s b k] h f by blast
qed

theorem add_article_url_unique_witness:
  "url_index_ok empty_db \<and>
   url_index_ok (snd (submit_all empty_db
     [\<lparr>url = Some ''A'', website_name = Some ''X'', scraped_at = None, content = ''c''\<rparr>,
      \<lparr>url = Some ''A'', website_name = Some ''Y'', scraped_at = None, content = ''d''\<rparr>])) \<and>
   length (filter (\<lambda>x. x = Some ''A'') (stored_urls (snd (submit_all empty_db
     [\<lparr>url = Some ''A'', website_name = Some ''X'', scraped_at = None, content = ''c''\<rparr>,
      \<lparr>url = Some ''A'', website_name = Some ''Y'', scraped_at = None, content = ''d''\<rparr>])))) \<le> 1"
proof -
  have ok: "url_index_ok empty_db" by (simp add: url_index_ok_def stored_urls_def empty_db_def)
  show ?thesis using ok add_article_url_unique[OF ok] by blast
qed

text \<open>
  C7. Start from a state with an empty article collection and an empty ledger and apply
  any sequence of submissions. Under every schedule of storage failures, a key that has
  a ledger entry is the key of a stored article. When no storage call fails, a key has a
  ledger entry exactly when an article with that key is stored, and that is exactly when
  some submission of the sequence returned \<open>success\<close> for the key. The duplicate path,
  \<open>_track_duplicate\<close>, leaves the keys of the ledger as they are in every state: it
  creates no entry.
\<close>

theorem seen_entry_iff_inserted:
  assumes "articles_collection s = []" "seen_urls_collection s = []"
  shows "(k \<in> set (ledger_urls (snd (submit_all s as))) \<longrightarrow>
            Some k \<in> set (stored_urls (snd (submit_all s as)))) \<and>
         (faults s = [] \<longrightarrow>
            (k \<in> set (ledger_urls (snd (submit_all s as))))
              = (Some k \<in> set (stored_urls (snd (submit_all s as)))) \<and>
            (Some k \<in> set (stored_urls (snd (submit_all s as))))
              = (k \<in> set (concat (map success_url_of (fst (submit_all s as)))))) \<and>
         ledger_urls (track_duplicate s0 u w) = ledger_urls s0"
proof (intro conjI impI)
  have "ledger_in_store s" using assms by (simp add: ledger_in_store_def ledger_urls_def)
  then have "ledger_in_store (snd (submit_all s as))" by (rule submit_all_ledger_in_store)
  then show "k \<in> set (ledger_urls (snd (submit_all s as))) \<Longrightarrow>
      Some k \<in> set (stored_urls (snd (submit_all s as)))"
    unfolding ledger_in_store_def by blast
next
  assume f: "faults s = []"
  have m: "ledger_matches_store s"
    using assms by (simp add: ledger_matches_store_def ledger_urls_def stored_urls_def)
  note n = submit_all_no_faults[OF f m, of as]
  have st: "set (stored_urls s) = {}" using assms by (simp add: stored_urls_def)
  have ms: "set (stored_urls (snd (submit_all s as))) = Some ` set (ledger_urls (snd (submit_all s as)))"
    using n unfolding ledger_matches_store_def by blast
  show "(k \<in> set (ledger_urls (snd (submit_all s as))))
              = (Some k \<in> set (stored_urls (snd (submit_all s as))))"
    unfolding ms by blast
  have "set (stored_urls (snd (submit_all s as)))
      = Some ` set (concat (map success_url_of (fst (submit_all s as))))"
    using n st by simp
  then show "(Some k \<in> set (stored_urls (snd (submit_all s as))))
              = (k \<in> set (concat (map success_url_of (fst (submit_all s as)))))"
    by blast
next
  show "ledger_urls (track_duplicate s0 u w) = ledger_urls s0" by (rule track_duplicate_ledger)
qed

theorem seen_entry_iff_inserted_witness:
  "articles_collection empty_db = [] \<and> seen_urls_collection empty_db = [] \<and>
   faults empty_db = [] \<and>
   (''A'' \<in> set (ledger_urls (snd (submit_all empty_db
      [\<lparr>url = Some ''A'', website_name = Some ''X'', scraped_at = None, content = ''c''\<rparr>,
       \<lparr>url = Some ''A'', website_name = Some ''Y'', scraped_at = None, content = ''d''\<rparr>]))))
   = (Some ''A'' \<in> set (stored_urls (snd (submit_all empty_db
      [\<lparr>url = Some ''A'', website_name = Some ''X'', scraped_at = None, content = ''c''\<rparr>,
       \<lparr>url = Some ''A'', website_name = Some ''Y'', scraped_at = None, content = ''d''\<rparr>]))))"
proof -
  have a: "articles_collection empty_db = []" and b: "seen_urls_collection empty_db = []"
    and c: "faults empty_db = []" by (simp_all add: empty_db_def)
  show ?thesis using a b c seen_entry_iff_inserted[OF a b] by blast
qed

text \<open>
  C9. In every state, whatever the statistics collection holds, the \<open>total_articles\<close>
  of a dictionary returned by \<open>get_database_stats\<close> is the number of documents in the
  article collection; it is read by \<open>count_documents\<close> on the article collection and
  not from the statistics document. When no storage call fails the method returns such
  a dictionary, also after the statistics collection has been replaced by any other
  content: a document with a drifted or missing \<open>total_articles\<close>, or no document.
\<close>

theorem get_database_stats_counts_articles:
  "(\<forall>v s'. get_database_stats s = (Inr v, s') \<longrightarrow>
       view_total_articles v = length (articles_collection s)) \<and>
   (faults s = [] \<longrightarrow>
      (\<exists>v s'. get_database_stats (s\<lparr>stats_collection := docs\<rparr>) = (Inr v, s') \<and>
          view_total_articles v = length (articles_collection s)))"
proof (intro conjI allI impI)
  fix v s'
  assume "get_database_stats s = (Inr v, s')"
  then show "view_total_articles v = length (articles_collection s)"
    by (rule get_database_stats_result)
next
  assume f: "faults s = []"
  then have "faults (s\<lparr>stats_collection := docs\<rparr>) = []" by simp
  then obtain v s' where r: "get_database_stats (s\<lparr>stats_collection := docs\<rparr>) = (Inr v, s')"
    using get_database_stats_returns by blast
  then have "view_total_articles v = length (articles_collection (s\<lparr>stats_collection := docs\<rparr>))"
    by (rule get_database_stats_result)
  then show "\<exists>v s'. get_database_stats (s\<lparr>stats_collection := docs\<rparr>) = (Inr v, s') \<and>
          view_total_articles v = length (articles_collection s)"
    using r by auto
qed

theorem get_database_stats_counts_articles_witness:
  "faults (empty_db\<lparr>articles_collection :=
       [(0, \<lparr>url = Some ''A'', website_name = None, scraped_at = Some 4, content = ''c''\<rparr>)]\<rparr>) = [] \<and>
   (\<exists>v s'. get_database_stats (empty_db\<lparr>articles_collection :=
       [(0, \<lparr>url = Some ''A'', website_name = None, scraped_at = Some 4, content = ''c''\<rparr>)],
       stats_collection := [empty_stats_doc\<lparr>total_articles := Some 7\<rparr>]\<rparr>) = (Inr v, s') \<and>
      view_total_articles v = 1)"
proof -
  have f: "faults (empty_db\<lparr>articles_collection :=
       [(0, \<lparr>url = Some ''A'', website_name = None, scraped_at = Some 4, content = ''c''\<rparr>)]\<rparr>) = []"
    by (simp add: empty_db_def)
  show ?thesis
    using f get_database_stats_counts_articles[of "empty_db\<lparr>articles_collection :=
       [(0, \<lparr>url = Some ''A'', website_name = None, scraped_at = Some 4, content = ''c''\<rparr>)]\<rparr>"
       "[empty_stats_doc\<lparr>total_articles := Some 7\<rparr>]"]
    by simp
qed

text \<open>
  C3, as the code has it. \<open>update_scraper_run\<close> does not read the status or the end
  time of the run. After \<open>end_scraper_run\<close> has closed a run, a later
  \<open>update_scraper_run\<close> on its id, with any deltas and any status argument, when the
  database call succeeds, returns normally, adds each positive delta to the matching
  counter of the run and leaves the other counters as they are. The run keeps its end
  time; its status is the one passed when a non-empty status is passed, so that a
  closed run can be set back to running, and the status it was closed with otherwise.
  No counter decreases.
\<close>

theorem update_scraper_run_after_end:
  assumes "faults s = []" "find_run s rid = Some r"
  shows "fst (update_scraper_run (snd (end_scraper_run s rid st0)) rid a d e st) = Inr () \<and>
         (\<exists>r'. find_run (snd (update_scraper_run (snd (end_scraper_run s rid st0)) rid a d e st)) rid
                  = Some r' \<and>
            ended_at r' = Some (clock s) \<and>
            run_status r' = (if truthy st then the st else st0) \<and>
            articles_scraped r' = articles_scraped r + max 0 a \<and>
            duplicates_found r' = duplicates_found r + max 0 d \<and>
            run_errors r' = run_errors r + max 0 e)"
proof -
  define s1 where "s1 = snd (end_scraper_run s rid st0)"
  have s1: "s1 = s\<lparr>clock := Suc (clock s), scraper_runs_collection :=
         update_first (\<lambda>r. run_id r = rid) (\<lambda>r. r\<lparr>run_status := st0, ended_at := Some (clock s)\<rparr>)
           (scraper_runs_collection s)\<rparr>"
    by (simp add: s1_def end_scraper_run_no_faults[OF assms(1)])
  have f1: "faults s1 = []" using assms(1) by (simp add: s1)
  have r1: "find_run s1 rid = Some (r\<lparr>run_status := st0, ended_at := Some (clock s)\<rparr>)"
    using assms(2) by (simp add: s1 find_run_def find_update_first)
  note u = update_scraper_run_no_faults[OF f1, of rid a d e st]
  have r2: "find_run (snd (update_scraper_run s1 rid a d e st)) rid
      = Some (apply_run_update a d e st (r\<lparr>run_status := st0, ended_at := Some (clock s)\<rparr>))"
    using r1 by (simp add: u find_run_def find_update_first run_id_apply_run_update)
  show ?thesis
    unfolding s1_def[symmetric] r2 by (simp add: u apply_run_update_def Let_def)
qed

theorem update_scraper_run_after_end_witness:
  "faults open_run_db = [] \<and>
   find_run open_run_db 0 = Some \<lparr>run_id = 0, started_at = 1, run_status = ''running'',
      run_source = Some ''X'', articles_scraped = 5, duplicates_found = 0, run_errors = 0,
      ended_at = None\<rparr> \<and>
   fst (update_scraper_run (snd (end_scraper_run open_run_db 0 ''completed'')) 0 1 0 0
          (Some ''running'')) = Inr () \<and>
   (\<exists>r'. find_run (snd (update_scraper_run (snd (end_scraper_run open_run_db 0 ''completed''))
                          0 1 0 0 (Some ''running''))) 0 = Some r' \<and>
      ended_at r' = Some (clock open_run_db) \<and> run_status r' = ''running'' \<and>
      articles_scraped r' = 6 \<and> duplicates_found r' = 0 \<and> run_errors r' = 0)"
proof -
  have f: "faults open_run_db = []" by (simp add: run_scenario_defs)
  have r: "find_run open_run_db 0 = Some \<lparr>run_id = 0, started_at = 1, run_status = ''running'',
      run_source = Some ''X'', articles_scraped = 5, duplicates_found = 0, run_errors = 0,
      ended_at = None\<rparr>"
    by (simp add: find_run_def run_scenario_defs)
  have t: "truthy (Some ''running'')" by simp
  show ?thesis
    using f r t update_scraper_run_after_end[OF f r, of "''completed''" 1 0 0 "Some ''running''"]
    by simp
qed

text \<open>
  C3 as stated fails: a run started, updated with five articles and ended has
  \<open>articles_scraped = 5\<close>; a further \<open>update_scraper_run\<close> with one article returns
  normally and the counter is \<open>6\<close>.
\<close>

theorem update_scraper_run_closed_counterexample:
  "map ended_at (scraper_runs_collection closed_run_db) = [Some 2] \<and>
   map articles_scraped (scraper_runs_collection closed_run_db) = [5] \<and>
   fst (update_scraper_run closed_run_db 0 1 0 0 None) = Inr () \<and>
   map articles_scraped
     (scraper_runs_collection (snd (update_scraper_run closed_run_db 0 1 0 0 None))) = [6]"
  by (simp add: run_scenario_defs)

text \<open>
  C4 on the code: an article with source \<open>X\<close> is submitted twice to a fresh database.
  The second call returns \<open>duplicate\<close> and \<open>total_duplicates\<close> is \<open>1\<close>, but
  \<open>sources.X.duplicates\<close> has not been created: \<open>_track_duplicate\<close> calls
  \<open>_update_stats(duplicates=1)\<close> without its \<open>source\<close> argument.
\<close>

theorem track_duplicate_source_counter:
  "fst (submit_all fresh_db [article_A, article_A])
     = [Inr (Success ''A'' 1 0), Inr (Duplicate ''A'')] \<and>
   stats_total_duplicates (snd (submit_all fresh_db [article_A, article_A])) = [Some 1] \<and>
   stats_source (snd (submit_all fresh_db [article_A, article_A])) ''X''
     = [Some \<lparr>src_articles = Some 1, src_duplicates = None\<rparr>]"
  by (simp add: fresh_db_def article_A_def empty_db_def initialize_stats_def initial_stats_def
      stats_total_duplicates_def stats_source_def
      add_article_def add_article_try_def track_duplicate_def add_to_seen_urls_def
      update_stats_def seen_count_documents_def articles_count_documents_def
      articles_insert_one_def seen_insert_one_def seen_update_one_def stats_update_one_def
      apply_stats_update_def source_of_def empty_source_stats_def db_call_def now_def Let_def)



end
